theory Spec2Isabelle
  imports Complex_Main "HOL-Library.Log_Nat"
begin

section \<open>The float64 arithmetic the verdancy computation runs on\<close>

text \<open>
  \<^verbatim>\<open>verifyAction\<close> computes the used share of a certificate's lifetime in Go's
  \<^verbatim>\<open>float64\<close>. A finite float64 is modelled by the rational it denotes; every
  operation is the exact operation followed by rounding to the nearest binary64 value,
  ties to even: the significand \<open>m\<close> has 53 bits, the exponent \<open>e\<close> of its last
  bit lies between \<open>-1074\<close> (subnormals) and \<open>971\<close>, and a value that rounds to
  \<open>2^1024\<close> or more overflows to an infinity. A division by zero gives an infinity or
  a NaN as in IEEE 754, which is what the Go compilers do; it is no run-time panic.
  The model has one zero: the only divisor of the program is a result of
  \<^verbatim>\<open>Duration.Hours\<close>, which is never the negative zero, and the sign of a zero
  quotient is lost in \<^verbatim>\<open>1 - x\<close>.
\<close>

datatype float64 = Finite rat | PosInf | NegInf | NaN

definition pow2 :: "int \<Rightarrow> rat" where
  "pow2 k = (if 0 \<le> k then 2 ^ nat k else 1 / 2 ^ nat (- k))"

text \<open>\<open>ilog2 x\<close> is the binary exponent \<open>\<lfloor>log\<^sub>2 x\<rfloor>\<close> of a positive rational.\<close>

definition ilog2 :: "rat \<Rightarrow> int" where
  "ilog2 x = (case quotient_of x of (p, q) \<Rightarrow>
     (let k = bitlen p - bitlen q in if pow2 k \<le> x then k else k - 1))"

definition round_half_even :: "rat \<Rightarrow> int" where
  "round_half_even x = (let f = \<lfloor>x\<rfloor>; d = x - of_int f in
     if d < 1 / 2 then f else if 1 / 2 < d then f + 1 else if even f then f else f + 1)"

definition round64 :: "rat \<Rightarrow> float64" where
  "round64 x = (if x = 0 then Finite 0 else
     (let a = \<bar>x\<bar>;
          e = max (ilog2 a - 52) (- 1074);
          m = round_half_even (a / pow2 e)
      in if 971 < e \<or> (e = 971 \<and> m = 2 ^ 53) then (if 0 < x then PosInf else NegInf)
         else Finite (sgn x * (of_int m * pow2 e))))"

definition float64_of_int :: "int \<Rightarrow> float64" where
  "float64_of_int i = round64 (of_int i)"

fun fneg :: "float64 \<Rightarrow> float64" where
  "fneg (Finite a) = Finite (- a)"
| "fneg PosInf = NegInf"
| "fneg NegInf = PosInf"
| "fneg NaN = NaN"

fun fadd :: "float64 \<Rightarrow> float64 \<Rightarrow> float64" where
  "fadd NaN _ = NaN"
| "fadd _ NaN = NaN"
| "fadd PosInf NegInf = NaN"
| "fadd NegInf PosInf = NaN"
| "fadd PosInf _ = PosInf"
| "fadd _ PosInf = PosInf"
| "fadd NegInf _ = NegInf"
| "fadd _ NegInf = NegInf"
| "fadd (Finite a) (Finite b) = round64 (a + b)"

definition fsub :: "float64 \<Rightarrow> float64 \<Rightarrow> float64" where
  "fsub x y = fadd x (fneg y)"

fun fmul :: "float64 \<Rightarrow> float64 \<Rightarrow> float64" where
  "fmul NaN _ = NaN"
| "fmul _ NaN = NaN"
| "fmul (Finite a) (Finite b) = round64 (a * b)"
| "fmul (Finite a) PosInf = (if a = 0 then NaN else if 0 < a then PosInf else NegInf)"
| "fmul (Finite a) NegInf = (if a = 0 then NaN else if 0 < a then NegInf else PosInf)"
| "fmul PosInf (Finite b) = (if b = 0 then NaN else if 0 < b then PosInf else NegInf)"
| "fmul NegInf (Finite b) = (if b = 0 then NaN else if 0 < b then NegInf else PosInf)"
| "fmul PosInf PosInf = PosInf"
| "fmul NegInf NegInf = PosInf"
| "fmul PosInf NegInf = NegInf"
| "fmul NegInf PosInf = NegInf"

fun fdiv :: "float64 \<Rightarrow> float64 \<Rightarrow> float64" where
  "fdiv NaN _ = NaN"
| "fdiv _ NaN = NaN"
| "fdiv (Finite a) (Finite b) =
     (if b = 0 then (if a = 0 then NaN else if 0 < a then PosInf else NegInf)
      else round64 (a / b))"
| "fdiv (Finite a) PosInf = Finite 0"
| "fdiv (Finite a) NegInf = Finite 0"
| "fdiv PosInf (Finite b) = (if 0 \<le> b then PosInf else NegInf)"
| "fdiv NegInf (Finite b) = (if 0 \<le> b then NegInf else PosInf)"
| "fdiv PosInf _ = NaN"
| "fdiv NegInf _ = NaN"

text \<open>
  The conversion \<^verbatim>\<open>int(f)\<close> discards the fraction (truncation towards zero). Where the
  64-bit \<^verbatim>\<open>int\<close> cannot represent the value (an infinity, a NaN, a magnitude of
  \<open>2^63\<close> or more) Go leaves the result to the implementation: \<open>impl\<close> is that
  platform's choice.
\<close>

definition trunc :: "rat \<Rightarrow> int" where
  "trunc x = (if 0 \<le> x then \<lfloor>x\<rfloor> else \<lceil>x\<rceil>)"

fun int_of_float64 :: "(float64 \<Rightarrow> int) \<Rightarrow> float64 \<Rightarrow> int" where
  "int_of_float64 impl (Finite x) =
     (if - (2 ^ 63) \<le> trunc x \<and> trunc x \<le> 2 ^ 63 - 1 then trunc x
      else impl (Finite x))"
| "int_of_float64 impl f = impl f"

section \<open>Time and durations\<close>

text \<open>
  An instant is its number of nanoseconds since the epoch; a \<^verbatim>\<open>Duration\<close> is a count of
  nanoseconds in an int64. \<^verbatim>\<open>Time.Sub\<close> saturates at the ends of that range, and
  \<^verbatim>\<open>time.Until(t)\<close> is \<^verbatim>\<open>t.Sub(time.Now())\<close>. Go's integer \<^verbatim>\<open>/\<close> and \<^verbatim>\<open>%\<close>
  truncate towards zero.
\<close>

type_synonym time = int
type_synonym duration = int

definition minDuration :: duration where
  "minDuration = - (2 ^ 63)"

definition maxDuration :: duration where
  "maxDuration = 2 ^ 63 - 1"

definition Sub :: "time \<Rightarrow> time \<Rightarrow> duration" where
  "Sub t u = (let d = t - u in
     if d < minDuration then minDuration else if maxDuration < d then maxDuration else d)"

definition Until :: "time \<Rightarrow> time \<Rightarrow> duration" where
  "Until now t = Sub t now"

definition Hour :: duration where
  "Hour = 3600000000000"

definition quo :: "int \<Rightarrow> int \<Rightarrow> int" where
  "quo a b = sgn a * sgn b * (\<bar>a\<bar> div \<bar>b\<bar>)"

definition rem :: "int \<Rightarrow> int \<Rightarrow> int" where
  "rem a b = a - b * quo a b"

definition Hours :: "duration \<Rightarrow> float64" where
  "Hours d = (let hour = quo d Hour; nsec = rem d Hour in
     fadd (float64_of_int hour) (fdiv (float64_of_int nsec) (Finite 3600000000000)))"

section \<open>Certificates, pools and the command's inputs\<close>

record certificate =
  NotBefore :: time
  NotAfter :: time
  Raw :: string

record block =
  Type :: string
  Headers :: "(string \<times> string) list"
  Bytes :: string

text \<open>
  A \<^verbatim>\<open>CertPool\<close> is the set of the certificates added to it. \<^verbatim>\<open>AppendCertsFromPEM\<close>
  adds the certificates it can parse out of a PEM buffer and reports whether there was
  one; which certificates a buffer holds is the library's matter (\<open>certs\<close> below).
\<close>

type_synonym certPool = "certificate set"

definition NewCertPool :: certPool where
  "NewCertPool = {}"

definition AddCert :: "certPool \<Rightarrow> certificate \<Rightarrow> certPool" where
  "AddCert s c = insert c s"

definition AppendCertsFromPEM :: "certificate list \<Rightarrow> certPool \<Rightarrow> bool \<times> certPool" where
  "AppendCertsFromPEM certs s = (certs \<noteq> [], s \<union> set certs)"

datatype extKeyUsage = ExtKeyUsageAny

record verifyOptions =
  DNSName :: string
  Roots :: "certPool option"
  Intermediates :: certPool
  KeyUsages :: "extKeyUsage list"

text \<open>The parsed command line: the positional arguments and the four flags.\<close>

record cli_context =
  Args :: "string list"
  flag_host :: string
  flag_verdancy :: bool
  flag_servername :: string
  flag_roots :: string

definition Args_Get :: "string list \<Rightarrow> nat \<Rightarrow> string" where
  "Args_Get as n = (if n < length as then as ! n else [])"

text \<open>
  Everything \<^verbatim>\<open>verifyAction\<close> calls outside its own body: helpers of other packages,
  the standard library, the file system, the network and the clock. An error of a callee
  is its message. \<open>ReadCertPool\<close> returns both of Go's results, because the caller
  keeps the pool whatever the error is.
\<close>

record env =
  NumberOfArguments :: "string list \<Rightarrow> nat \<Rightarrow> string option"
  trimURL :: "string \<Rightarrow> string + (string \<times> bool)"
  getPeerCertificates :: "string \<Rightarrow> string \<Rightarrow> string \<Rightarrow> bool \<Rightarrow> string + certificate list"
  ReadFile :: "string \<Rightarrow> string + string"
  Decode :: "string \<Rightarrow> block option \<times> string"
  ParseCertificate :: "string \<Rightarrow> string + certificate"
  EncodeToMemory :: "block \<Rightarrow> string"
  CertsOfPEM :: "string \<Rightarrow> certificate list"
  ReadCertPool :: "string \<Rightarrow> certPool option \<times> string option"
  Verify :: "time \<Rightarrow> certificate \<Rightarrow> verifyOptions \<Rightarrow> string option"
  Now :: time
  IntOfFloat :: "float64 \<Rightarrow> int"

text \<open>
  The errors \<^verbatim>\<open>verifyAction\<close> returns, by the statement that builds them. \<open>Passed\<close>
  is a callee's error returned unchanged; \<open>PanicIndex\<close> is the run-time panic of
  \<^verbatim>\<open>peerCertificates[0]\<close> on an empty slice.
\<close>

datatype error =
    Passed string
  | FileError string string
  | InvalidPEMBlock string
  | WithStack string
  | NoPEMCertificateBlocks string
  | IntermediateListFailure string
  | VerdancyFailure
  | VerifyFailed string
  | PanicIndex

datatype colour = Red | Green | Yellow

type_synonym stdout = "(colour \<times> nat) list"

section \<open>verifyAction\<close>

subsection \<open>Lines 148-164: the loop over the PEM blocks of the file\<close>

partial_function (option) pemLoop ::
  "env \<Rightarrow> string \<Rightarrow> string \<Rightarrow> certificate option \<Rightarrow> string
     \<Rightarrow> (error + certificate option \<times> string) option"
where
  "pemLoop E crtFile crtBytes cert ipems =
     (if 0 < length crtBytes then
        (case Decode E crtBytes of
           (None, rest) \<Rightarrow> Some (Inl (InvalidPEMBlock crtFile))
         | (Some blk, rest) \<Rightarrow>
             if Type blk \<noteq> ''CERTIFICATE'' then pemLoop E crtFile rest cert ipems
             else (case cert of
                     None \<Rightarrow>
                       (case ParseCertificate E (Bytes blk) of
                          Inl err \<Rightarrow> Some (Inl (WithStack err))
                        | Inr c \<Rightarrow> pemLoop E crtFile rest (Some c) ipems)
                   | Some c \<Rightarrow> pemLoop E crtFile rest cert (ipems @ EncodeToMemory E blk)))
      else Some (Inr (cert, ipems)))"

declare pemLoop.simps [code]

subsection \<open>Lines 124-171: the leaf certificate and the intermediate pool\<close>

definition fromPEM ::
  "env \<Rightarrow> string \<Rightarrow> string \<Rightarrow> (error + certificate \<times> certPool) option"
where
  "fromPEM E crtFile crtBytes =
     (case pemLoop E crtFile crtBytes None [] of
        None \<Rightarrow> None
      | Some (Inl e) \<Rightarrow> Some (Inl e)
      | Some (Inr (None, ipems)) \<Rightarrow> Some (Inl (NoPEMCertificateBlocks crtFile))
      | Some (Inr (Some c, ipems)) \<Rightarrow>
          if 0 < length ipems then
            (case AppendCertsFromPEM (CertsOfPEM E ipems) NewCertPool of
               (ok, pool) \<Rightarrow>
                 if \<not> ok then Some (Inl (IntermediateListFailure crtFile))
                 else Some (Inr (c, pool)))
          else Some (Inr (c, NewCertPool)))"

definition fromPeer :: "certificate list \<Rightarrow> error + certificate \<times> certPool" where
  "fromPeer peerCertificates =
     (case peerCertificates of
        [] \<Rightarrow> Inl PanicIndex
      | c # _ \<Rightarrow> Inr (c, foldl AddCert NewCertPool peerCertificates))"

definition acquire :: "env \<Rightarrow> cli_context \<Rightarrow> (error + certificate \<times> certPool) option" where
  "acquire E ctx =
     (let crtFile = Args_Get (Args ctx) 0 in
      case trimURL E crtFile of
        Inl err \<Rightarrow> Some (Inl (Passed err))
      | Inr (addr, isURL) \<Rightarrow>
          if isURL then
            (case getPeerCertificates E addr (flag_servername ctx) (flag_roots ctx) False of
               Inl err \<Rightarrow> Some (Inl (Passed err))
             | Inr peerCertificates \<Rightarrow> Some (fromPeer peerCertificates))
          else
            (case ReadFile E crtFile of
               Inl err \<Rightarrow> Some (Inl (FileError err crtFile))
             | Inr crtBytes \<Rightarrow> fromPEM E crtFile crtBytes))"

subsection \<open>Lines 173-179: the root pool\<close>

text \<open>
  The error of \<^verbatim>\<open>ReadCertPool\<close> is wrapped and the wrapped error is dropped: the
  statement is not a \<^verbatim>\<open>return\<close>. Only the pool is kept.
\<close>

definition loadRoots :: "env \<Rightarrow> string \<Rightarrow> certPool option" where
  "loadRoots E roots = (if roots \<noteq> [] then fst (ReadCertPool E roots) else None)"

subsection \<open>Lines 181-222: verdancy\<close>

definition percentUsed :: "(float64 \<Rightarrow> int) \<Rightarrow> time \<Rightarrow> certificate \<Rightarrow> int" where
  "percentUsed impl now cert =
     (let remainingValidity = Hours (Until now (NotAfter cert));
          totalValidity = Hours (Sub (NotAfter cert) (NotBefore cert))
      in int_of_float64 impl
           (fmul (fsub (Finite 1) (fdiv remainingValidity totalValidity)) (Finite 100)))"

definition verdancyLevel :: "int \<Rightarrow> stdout \<times> error option" where
  "verdancyLevel p =
     (if 100 \<le> p then ([(Red, 3)], None)
      else if 90 < p then ([(Red, 2)], None)
      else if 66 < p \<and> p < 90 then ([(Yellow, 1)], None)
      else if p < 66 \<and> 1 < p then ([(Green, 0)], None)
      else if p < 1 then ([(Green, 0)], None)
      else ([], Some VerdancyFailure))"

definition verdancy :: "(float64 \<Rightarrow> int) \<Rightarrow> time \<Rightarrow> certificate \<Rightarrow> stdout \<times> error option" where
  "verdancy impl now cert = verdancyLevel (percentUsed impl now cert)"

subsection \<open>Lines 224-239: path validation\<close>

definition validate ::
  "env \<Rightarrow> string \<Rightarrow> certPool option \<Rightarrow> certPool \<Rightarrow> certificate \<Rightarrow> stdout \<times> error option"
where
  "validate E host rootPool intermediatePool cert =
     (let opts = \<lparr>DNSName = host, Roots = rootPool, Intermediates = intermediatePool,
                  KeyUsages = [ExtKeyUsageAny]\<rparr>
      in case Verify E (Now E) cert opts of
           Some err \<Rightarrow> ([], Some (VerifyFailed err))
         | None \<Rightarrow> ([], None))"

subsection \<open>The whole action\<close>

text \<open>
  The result is what was written to the standard output and the returned error
  (\<open>None\<close> for Go's \<^verbatim>\<open>nil\<close>); the outer \<open>None\<close> is a run whose loop over the PEM
  blocks never ends.
\<close>

definition verifyAction :: "env \<Rightarrow> cli_context \<Rightarrow> (stdout \<times> error option) option" where
  "verifyAction E ctx =
     (case NumberOfArguments E (Args ctx) 1 of
        Some err \<Rightarrow> Some ([], Some (Passed err))
      | None \<Rightarrow>
          (case acquire E ctx of
             None \<Rightarrow> None
           | Some (Inl e) \<Rightarrow> Some ([], Some e)
           | Some (Inr (cert, intermediatePool)) \<Rightarrow>
               (let rootPool = loadRoots E (flag_roots ctx) in
                if flag_verdancy ctx then Some (verdancy (IntOfFloat E) (Now E) cert)
                else Some (validate E (flag_host ctx) rootPool intermediatePool cert))))"

section \<open>Concrete inputs\<close>

text \<open>
  On amd64 the conversion instruction answers every operand it cannot represent with
  the same value, \<open>-2^63\<close>.
\<close>

definition cvttsd2si :: "float64 \<Rightarrow> int" where
  "cvttsd2si f = - (2 ^ 63)"

text \<open>A certificate valid from \<open>a\<close> to \<open>b\<close>.\<close>

definition crt :: "time \<Rightarrow> time \<Rightarrow> certificate" where
  "crt a b = \<lparr>NotBefore = a, NotAfter = b, Raw = []\<rparr>"

subsection \<open>Describing a buffer by the blocks the loop reads from it\<close>

definition isCert :: "block \<Rightarrow> bool" where
  "isCert blk = (Type blk = ''CERTIFICATE'')"

text \<open>
  \<open>blocksOf D buf bs rest\<close>: calling the decoder \<open>D\<close> again and again, as the loop does
  while the buffer is not empty, reads the blocks \<open>bs\<close> from \<open>buf\<close> in this order and
  leaves \<open>rest\<close>.
\<close>

fun blocksOf :: "(string \<Rightarrow> block option \<times> string) \<Rightarrow> string \<Rightarrow> block list \<Rightarrow> string \<Rightarrow> bool" where
  "blocksOf D buf [] rest = (rest = buf)"
| "blocksOf D buf (b # bs) rest =
     (0 < length buf \<and>
      (case D buf of (Some b', r) \<Rightarrow> b' = b \<and> blocksOf D r bs rest | (None, r) \<Rightarrow> False))"

text \<open>The buffer is read to its end, or the decoder finds no block in what is left.\<close>

definition exhausted :: "string \<Rightarrow> bool" where
  "exhausted rest = (rest = [])"

definition undecodable :: "(string \<Rightarrow> block option \<times> string) \<Rightarrow> string \<Rightarrow> bool" where
  "undecodable D rest = (0 < length rest \<and> fst (D rest) = None)"

text \<open>The first certificate block of a list, if there is one, parses.\<close>

definition leafParses :: "env \<Rightarrow> block list \<Rightarrow> bool" where
  "leafParses E bs =
     (case filter isCert bs of
        [] \<Rightarrow> True
      | b # _ \<Rightarrow> (case ParseCertificate E (Bytes b) of Inl _ \<Rightarrow> False | Inr _ \<Rightarrow> True))"

text \<open>The body of the loop, run over blocks that are already decoded.\<close>

fun overBlocks ::
  "env \<Rightarrow> block list \<Rightarrow> certificate option \<Rightarrow> string \<Rightarrow> string + certificate option \<times> string"
where
  "overBlocks E [] cert ipems = Inr (cert, ipems)"
| "overBlocks E (blk # bs) cert ipems =
     (if Type blk \<noteq> ''CERTIFICATE'' then overBlocks E bs cert ipems
      else (case cert of
              None \<Rightarrow>
                (case ParseCertificate E (Bytes blk) of
                   Inl err \<Rightarrow> Inl err
                 | Inr c \<Rightarrow> overBlocks E bs (Some c) ipems)
            | Some c \<Rightarrow> overBlocks E bs cert (ipems @ EncodeToMemory E blk)))"

subsection \<open>A small world to run the action in\<close>

text \<open>
  A block is written as a tag (\<open>C\<close> for a certificate, \<open>K\<close> for a private key), its
  bytes and a closing semicolon; bytes that begin with \<open>x\<close> are no certificate.
\<close>

definition toyBlock :: "char \<Rightarrow> string \<Rightarrow> block" where
  "toyBlock t body =
     \<lparr>Type = (if t = CHR ''C'' then ''CERTIFICATE'' else ''PRIVATE KEY''), Headers = [],
      Bytes = body\<rparr>"

definition toyDecode :: "string \<Rightarrow> block option \<times> string" where
  "toyDecode buf =
     (case buf of
        [] \<Rightarrow> (None, [])
      | t # cs \<Rightarrow>
          if (t = CHR ''C'' \<or> t = CHR ''K'') \<and> CHR '';'' \<in> set cs
          then (Some (toyBlock t (takeWhile (\<lambda>c. c \<noteq> CHR '';'') cs)),
                tl (dropWhile (\<lambda>c. c \<noteq> CHR '';'') cs))
          else (None, buf))"

definition toyEncode :: "block \<Rightarrow> string" where
  "toyEncode blk = (if Type blk = ''CERTIFICATE'' then ''C'' else ''K'') @ Bytes blk @ '';''"

definition toyCert :: "string \<Rightarrow> certificate" where
  "toyCert der = \<lparr>NotBefore = 0, NotAfter = 1000 * Hour, Raw = der\<rparr>"

definition toyParse :: "string \<Rightarrow> string + certificate" where
  "toyParse der =
     (case der of
        [] \<Rightarrow> Inl ''asn1: syntax error''
      | c # _ \<Rightarrow> if c = CHR ''x'' then Inl ''asn1: syntax error'' else Inr (toyCert der))"

fun toyCertsN :: "nat \<Rightarrow> string \<Rightarrow> certificate list" where
  "toyCertsN 0 buf = []"
| "toyCertsN (Suc n) buf =
     (case toyDecode buf of
        (None, rest) \<Rightarrow> []
      | (Some blk, rest) \<Rightarrow>
          if Type blk = ''CERTIFICATE'' \<and> Headers blk = [] then
            (case toyParse (Bytes blk) of
               Inl err \<Rightarrow> toyCertsN n rest
             | Inr c \<Rightarrow> c # toyCertsN n rest)
          else toyCertsN n rest)"

definition toyCerts :: "string \<Rightarrow> certificate list" where
  "toyCerts buf = toyCertsN (length buf) buf"

definition toyTrimURL :: "string \<Rightarrow> string + (string \<times> bool)" where
  "toyTrimURL s = (if take 8 s = ''https://'' then Inr (drop 8 s, True) else Inr (s, False))"

definition toyPeers :: "string \<Rightarrow> string + certificate list" where
  "toyPeers addr =
     (if addr = ''ca.example'' then Inr [toyCert ''leaf'', toyCert ''ca'']
      else if addr = ''mute.example'' then Inr []
      else Inl ''dial tcp: no such host'')"

definition chainPEM :: string where
  "chainPEM = ''Kkey;Cleaf;Kkey;Cca;Croot;''"

definition chainBlocks :: "block list" where
  "chainBlocks =
     [toyBlock CHR ''K'' ''key'', toyBlock CHR ''C'' ''leaf'', toyBlock CHR ''K'' ''key'',
      toyBlock CHR ''C'' ''ca'', toyBlock CHR ''C'' ''root'']"

definition toyFiles :: "(string \<times> string) list" where
  "toyFiles =
     [(''leaf.pem'', ''Cleaf;''),
      (''served.pem'', ''Cleaf;Cca;''),
      (''chain.pem'', chainPEM),
      (''keys.pem'', ''Kkey;Kkey;''),
      (''empty.pem'', ''''),
      (''tail.pem'', ''Cleaf;junk''),
      (''garbled.pem'', ''Kkey;Cxyz;''),
      (''badleaf.pem'', ''Cxyz;junk''),
      (''badrest.pem'', ''Cleaf;Cxyz;'')]"

definition toyReadFile :: "string \<Rightarrow> string + string" where
  "toyReadFile path =
     (case map_of toyFiles path of
        None \<Rightarrow> Inl ''no such file or directory''
      | Some bytes \<Rightarrow> Inr bytes)"

definition toyReadCertPool :: "string \<Rightarrow> certPool option \<times> string option" where
  "toyReadCertPool path =
     (if path = ''roots.pem'' then (Some {toyCert ''root''}, None)
      else (None, Some ''no such file or directory''))"

text \<open>
  The toy fetcher does what the arguments of the call say: it loads the root source
  itself and, unless it is told to skip the verification, lets the handshake fail when
  the presented chain holds none of the roots. Without a root source the handshake trusts
  the system's roots, which here hold every certificate.
\<close>

definition toyGetPeerCertificates ::
  "string \<Rightarrow> string \<Rightarrow> string \<Rightarrow> bool \<Rightarrow> string + certificate list"
where
  "toyGetPeerCertificates addr serverName roots insecure =
     (case (if roots = [] then (None, None) else toyReadCertPool roots) of
        (rootCAs, Some err) \<Rightarrow> Inl ''failure to load root certificate pool''
      | (rootCAs, None) \<Rightarrow>
          (case toyPeers addr of
             Inl err \<Rightarrow> Inl err
           | Inr chain \<Rightarrow>
               if insecure then Inr chain
               else (case rootCAs of
                       None \<Rightarrow> Inr chain
                     | Some rs \<Rightarrow>
                         if rs \<inter> set chain = {} then
                           Inl ''x509: certificate signed by unknown authority''
                         else Inr chain)))"

text \<open>
  The toy validator accepts a certificate inside its validity period that is a root or
  has a root among the intermediates; without a root pool it trusts the system's roots,
  which here hold every certificate.
\<close>

definition toyVerify :: "time \<Rightarrow> certificate \<Rightarrow> verifyOptions \<Rightarrow> string option" where
  "toyVerify now cert opts =
     (if now < NotBefore cert then Some ''x509: certificate is not yet valid''
      else if NotAfter cert < now then Some ''x509: certificate has expired''
      else (case Roots opts of
              None \<Rightarrow> None
            | Some rs \<Rightarrow>
                if cert \<in> rs then None
                else if rs \<inter> Intermediates opts = {} then
                  Some ''x509: certificate signed by unknown authority''
                else None))"

definition toyNumberOfArguments :: "string list \<Rightarrow> nat \<Rightarrow> string option" where
  "toyNumberOfArguments as n =
     (if length as < n then Some ''not enough positional arguments''
      else if n < length as then Some ''too many positional arguments''
      else None)"

definition world :: env where
  "world =
     \<lparr>NumberOfArguments = toyNumberOfArguments,
      trimURL = toyTrimURL,
      getPeerCertificates = toyGetPeerCertificates,
      ReadFile = toyReadFile,
      Decode = toyDecode,
      ParseCertificate = toyParse,
      EncodeToMemory = toyEncode,
      CertsOfPEM = toyCerts,
      ReadCertPool = toyReadCertPool,
      Verify = toyVerify,
      Now = 500 * Hour,
      IntOfFloat = cvttsd2si\<rparr>"

text \<open>\<^verbatim>\<open>step certificate verify <crt> [--host h] [--verdancy] [--roots r]\<close>\<close>

definition invoke :: "string \<Rightarrow> string \<Rightarrow> bool \<Rightarrow> string \<Rightarrow> cli_context" where
  "invoke crtFile host verd roots =
     \<lparr>Args = [crtFile], flag_host = host, flag_verdancy = verd, flag_servername = [],
      flag_roots = roots\<rparr>"

section \<open>Verdancy\<close>

text \<open>The rounding on values whose binary64 neighbours are known.\<close>

lemma round64_known:
  "round64 (1 / 10) = Finite (3602879701896397 / 2 ^ 55)"
  "round64 (2 ^ 53 + 1) = Finite (2 ^ 53)"
  "round64 (2 ^ 53 + 3) = Finite (2 ^ 53 + 4)"
  "round64 (- (1 / 3)) = Finite (- (6004799503160661 / 2 ^ 54))"
  by code_simp+

lemma trunc_towards_zero:
  "\<bar>of_int (trunc x)\<bar> \<le> \<bar>x\<bar> \<and> \<bar>x - of_int (trunc x)\<bar> < 1"
proof (cases "0 \<le> x")
  case True
  have "of_int \<lfloor>x\<rfloor> \<le> x" "x < of_int \<lfloor>x\<rfloor> + 1" by linarith+
  moreover from True have "(0::rat) \<le> of_int \<lfloor>x\<rfloor>" by simp
  ultimately show ?thesis using True by (simp add: trunc_def)
next
  case False
  have "of_int \<lceil>x\<rceil> - 1 < x" "x \<le> of_int \<lceil>x\<rceil>" by linarith+
  moreover from False have "of_int \<lceil>x\<rceil> \<le> (0::rat)" by (simp add: ceiling_le_zero)
  ultimately show ?thesis using False by (simp add: trunc_def)
qed

lemma int_of_float64_in_range:
  assumes "\<bar>x\<bar> < 2 ^ 63"
  shows "int_of_float64 impl (Finite x) = trunc x"
proof -
  from trunc_towards_zero [of x] assms have "(of_int \<bar>trunc x\<bar> :: rat) < of_int (2 ^ 63)"
    by simp
  then have "\<bar>trunc x\<bar> < 2 ^ 63" by (simp only: of_int_less_iff)
  then have "- (2 ^ 63) \<le> trunc x \<and> trunc x \<le> 2 ^ 63 - 1" by (simp add: abs_less_iff)
  then show ?thesis by simp
qed

lemma percentUsed_shift:
  "percentUsed impl (T + n) \<lparr>NotBefore = T + a, NotAfter = T + b, Raw = raw\<rparr>
     = percentUsed impl n (crt a b)"
  by (simp add: percentUsed_def crt_def Until_def Sub_def)

lemma percentUsed_shift0:
  "percentUsed impl (T + n) \<lparr>NotBefore = T, NotAfter = T + b, Raw = raw\<rparr>
     = percentUsed impl n (crt 0 b)"
  using percentUsed_shift [of impl T n 0 b raw] by simp

lemma Hours_0: "Hours 0 = Finite 0"
  by code_simp

lemma percentUsed_999: "percentUsed impl (999 * Hour) (crt 0 (1000 * Hour)) = 99"
  by code_simp




lemma percentUsed_before: "percentUsed impl (- 5 * Hour) (crt 0 (1000 * Hour)) = 0"
  by code_simp


lemma percentUsed_reversed: "percentUsed impl (500 * Hour) (crt (1000 * Hour) 0) = 50"
  by code_simp

lemma percentUsed_empty_window: "percentUsed impl Hour (crt 0 0) = impl PosInf"
  by code_simp

lemma verdancyLevel_values:
  "verdancyLevel 99 = ([(Red, 2)], None)"
  "verdancyLevel 100 = ([(Red, 3)], None)"
  "verdancyLevel 200 = ([(Red, 3)], None)"
  "verdancyLevel 50 = ([(Green, 0)], None)"
  "verdancyLevel 0 = ([(Green, 0)], None)"
  "verdancyLevel (- 50) = ([(Green, 0)], None)"
  by (simp_all add: verdancyLevel_def)

lemma verdancyLevel_fails_iff:
  "verdancyLevel p = ([], Some VerdancyFailure) \<longleftrightarrow> p = 1 \<or> p = 66 \<or> p = 90"
  by (auto simp: verdancyLevel_def)

text \<open>
  The three gaps are reached: 90, 66.5 and 1 hours into a window of 100 hours give the
  percentages 90, 66 and 1.
\<close>

lemma verdancy_gaps_reached:
  "percentUsed impl (90 * Hour) (crt 0 (100 * Hour)) = 90"
  "percentUsed impl (133 * Hour) (crt 0 (200 * Hour)) = 66"
  "percentUsed impl (1 * Hour) (crt 0 (100 * Hour)) = 1"
  by code_simp+

text \<open>
  C7. When the percentage is exactly 90, exactly 66 or exactly 1, no band applies: the
  calculation writes no level and returns the error of the last branch. These three are
  the only percentages for which it does.
\<close>

theorem verdancy_gaps_fail:
  "verdancy impl now cert = ([], Some VerdancyFailure)
     \<longleftrightarrow> percentUsed impl now cert = 90 \<or> percentUsed impl now cert = 66
          \<or> percentUsed impl now cert = 1"
  by (auto simp: verdancy_def verdancyLevel_fails_iff)

text \<open>
  C2, as the code has it. The percentage is the float64 value of
  \<open>(1 - remainingHours/totalHours) * 100\<close> converted by \<^verbatim>\<open>int\<close>, which cuts the fraction
  off and does not round: whenever that value is a finite \<open>x\<close> below \<open>2^63\<close> in
  magnitude, the percentage is \<open>x\<close> truncated towards zero, so it is never farther
  from zero than \<open>x\<close> and less than 1 away from it. For every \<open>T\<close>, a certificate
  valid from \<open>T\<close> to \<open>T + 1000h\<close> is 99 percent used at \<open>T + 999h\<close> and its level is
  2, not 3; five hours before \<open>T\<close> the value \<open>-0.5\<close> becomes 0.
\<close>

theorem percentUsed_truncated:
  "(\<forall>x. fmul (fsub (Finite 1) (fdiv (Hours (Until now (NotAfter cert)))
                      (Hours (Sub (NotAfter cert) (NotBefore cert))))) (Finite 100) = Finite x
         \<and> \<bar>x\<bar> < 2 ^ 63
       \<longrightarrow> percentUsed impl now cert = trunc x
           \<and> \<bar>of_int (percentUsed impl now cert)\<bar> \<le> \<bar>x\<bar>
           \<and> \<bar>x - of_int (percentUsed impl now cert)\<bar> < 1)
   \<and> percentUsed impl (T + 999 * Hour) \<lparr>NotBefore = T, NotAfter = T + 1000 * Hour, Raw = raw\<rparr> = 99
   \<and> verdancy impl (T + 999 * Hour) \<lparr>NotBefore = T, NotAfter = T + 1000 * Hour, Raw = raw\<rparr>
       = ([(Red, 2)], None)
   \<and> percentUsed impl (T + - 5 * Hour) \<lparr>NotBefore = T, NotAfter = T + 1000 * Hour, Raw = raw\<rparr> = 0"
proof -
  have "percentUsed impl now cert = trunc x
           \<and> \<bar>of_int (percentUsed impl now cert)\<bar> \<le> \<bar>x\<bar>
           \<and> \<bar>x - of_int (percentUsed impl now cert)\<bar> < 1"
    if "fmul (fsub (Finite 1) (fdiv (Hours (Until now (NotAfter cert)))
                      (Hours (Sub (NotAfter cert) (NotBefore cert))))) (Finite 100) = Finite x"
      and "\<bar>x\<bar> < 2 ^ 63" for x
  proof -
    from that have "percentUsed impl now cert = trunc x"
      by (simp only: percentUsed_def Let_def int_of_float64_in_range)
    with trunc_towards_zero [of x] show ?thesis by simp
  qed
  then show ?thesis
    by (simp only: verdancy_def percentUsed_shift0 percentUsed_999 percentUsed_before
          verdancyLevel_values simp_thms) blast
qed

text \<open>
  At \<open>T = 0\<close> the float64 value is the binary64 neighbour of 99.9 and the percentage
  is 99.
\<close>

lemma raw_999:
  "fmul (fsub (Finite 1) (fdiv (Hours (Until (999 * Hour) (NotAfter (crt 0 (1000 * Hour)))))
       (Hours (Sub (NotAfter (crt 0 (1000 * Hour))) (NotBefore (crt 0 (1000 * Hour))))))) (Finite 100)
     = Finite (3514918771674317 / 35184372088832)"
  by code_simp

theorem percentUsed_truncated_witness:
  "fmul (fsub (Finite 1) (fdiv (Hours (Until (999 * Hour) (NotAfter (crt 0 (1000 * Hour)))))
       (Hours (Sub (NotAfter (crt 0 (1000 * Hour))) (NotBefore (crt 0 (1000 * Hour))))))) (Finite 100)
     = Finite (3514918771674317 / 35184372088832)
   \<and> \<bar>3514918771674317 / 35184372088832 :: rat\<bar> < 2 ^ 63
   \<and> percentUsed cvttsd2si (999 * Hour) (crt 0 (1000 * Hour)) = trunc (3514918771674317 / 35184372088832)
   \<and> trunc (3514918771674317 / 35184372088832) = 99"
proof -
  have b: "\<bar>3514918771674317 / 35184372088832 :: rat\<bar> < 2 ^ 63" by simp
  have t: "trunc (3514918771674317 / 35184372088832) = 99" by code_simp
  from percentUsed_truncated [of "999 * Hour" "crt 0 (1000 * Hour)" cvttsd2si] raw_999 b
  have "percentUsed cvttsd2si (999 * Hour) (crt 0 (1000 * Hour)) = trunc (3514918771674317 / 35184372088832)"
    by blast
  with raw_999 b t show ?thesis by (simp only: simp_thms)
qed

text \<open>
  C2, as the specification has it (99.9 rounds to 100, the level is Expired), fails at
  \<open>T = 0\<close>.
\<close>

theorem percentUsed_not_rounded:
  "percentUsed cvttsd2si (999 * Hour) (crt 0 (1000 * Hour)) \<noteq> 100
   \<and> verdancy cvttsd2si (999 * Hour) (crt 0 (1000 * Hour)) \<noteq> ([(Red, 3)], None)"
  by (simp add: verdancy_def percentUsed_999 verdancyLevel_values)



lemma percentUsed_zero_window:
  assumes "NotAfter cert = NotBefore cert"
  shows "percentUsed impl now cert = impl NaN \<or> percentUsed impl now cert = impl PosInf
           \<or> percentUsed impl now cert = impl NegInf"
proof -
  have total: "Hours (Sub (NotAfter cert) (NotBefore cert)) = Finite 0"
    using assms by (simp add: Sub_def minDuration_def maxDuration_def Hours_0)
  show ?thesis
    unfolding percentUsed_def Let_def total fsub_def
    by (cases "Hours (Until now (NotAfter cert))") simp_all
qed

text \<open>
  C3, as the code has it. The validity window is never checked. With an empty window
  (\<open>notAfter = notBefore\<close>) the float64 division by zero yields an infinity or a NaN
  without a crash, the percentage is whatever the platform converts that value to, and
  the bands are tried on it as on any other percentage (at \<open>now = T + 1h\<close> the value
  is \<open>+Inf\<close>). With a reversed window the division is carried out: a certificate with
  \<open>notBefore = T + 1000h\<close> and \<open>notAfter = T\<close> is 50 percent used at \<open>T + 500h\<close>,
  level 0 is written and the action succeeds.
\<close>

theorem verdancy_unchecked_window:
  "(NotAfter cert = NotBefore cert \<longrightarrow>
      (\<exists>f \<in> {NaN, PosInf, NegInf}. percentUsed impl now cert = impl f
          \<and> verdancy impl now cert = verdancyLevel (impl f)))
   \<and> percentUsed impl (T + Hour) \<lparr>NotBefore = T, NotAfter = T, Raw = raw\<rparr> = impl PosInf
   \<and> percentUsed impl (T + 500 * Hour) \<lparr>NotBefore = T + 1000 * Hour, NotAfter = T, Raw = raw\<rparr> = 50
   \<and> verdancy impl (T + 500 * Hour) \<lparr>NotBefore = T + 1000 * Hour, NotAfter = T, Raw = raw\<rparr>
       = ([(Green, 0)], None)"
proof -
  have a: "percentUsed impl (T + Hour) \<lparr>NotBefore = T, NotAfter = T, Raw = raw\<rparr> = impl PosInf"
    using percentUsed_shift [of impl T Hour 0 0 raw] by (simp add: percentUsed_empty_window)
  have b: "percentUsed impl (T + 500 * Hour) \<lparr>NotBefore = T + 1000 * Hour, NotAfter = T, Raw = raw\<rparr> = 50"
    using percentUsed_shift [of impl T "500 * Hour" "1000 * Hour" 0 raw]
    by (simp add: percentUsed_reversed)
  show ?thesis
    using percentUsed_zero_window [of cert impl now] a b
    by (auto simp: verdancy_def verdancyLevel_values)
qed

text \<open>
  The empty window on amd64, one hour after the certificate's only instant: the percentage
  is \<open>-2^63\<close>, level 0 is written and the action succeeds.
\<close>

theorem verdancy_unchecked_window_witness:
  "NotAfter (crt 0 0) = NotBefore (crt 0 0)
   \<and> percentUsed cvttsd2si Hour (crt 0 0) = - (2 ^ 63)
   \<and> verdancy cvttsd2si Hour (crt 0 0) = ([(Green, 0)], None)"
proof -
  have h: "NotAfter (crt 0 0) = NotBefore (crt 0 0)" by (simp add: crt_def)
  have v: "verdancyLevel (- (2 ^ 63)) = ([(Green, 0)], None)" by (simp add: verdancyLevel_def)
  from verdancy_unchecked_window [of "crt 0 0" cvttsd2si Hour] h v
  show ?thesis by (auto simp: cvttsd2si_def)
qed

text \<open>
  C3, as the specification has it (a window that is zero or negative makes the
  calculation fail and no level is written), fails for the reversed window.
\<close>

theorem verdancy_reversed_window_emits_level:
  "verdancy cvttsd2si (500 * Hour) (crt (1000 * Hour) 0) = ([(Green, 0)], None)"
  by (simp add: verdancy_def percentUsed_reversed verdancyLevel_values)

section \<open>The loop over the PEM blocks\<close>

lemma blocksOf_append:
  "blocksOf D buf (xs @ ys) rest \<longleftrightarrow> (\<exists>mid. blocksOf D buf xs mid \<and> blocksOf D mid ys rest)"
  by (induction xs arbitrary: buf) (auto split: prod.splits option.splits)

lemma pemLoop_empty: "pemLoop E f [] cert ip = Some (Inr (cert, ip))"
  by (subst pemLoop.simps) simp

lemma pemLoop_undecodable:
  "undecodable (Decode E) rest \<Longrightarrow> pemLoop E f rest cert ip = Some (Inl (InvalidPEMBlock f))"
  by (subst pemLoop.simps) (auto simp: undecodable_def split: prod.splits option.splits)

lemma pemLoop_overBlocks:
  "blocksOf (Decode E) buf bs rest \<Longrightarrow>
     pemLoop E f buf cert ip =
       (case overBlocks E bs cert ip of
          Inl err \<Rightarrow> Some (Inl (WithStack err))
        | Inr (cert', ip') \<Rightarrow> pemLoop E f rest cert' ip')"
proof (induction bs arbitrary: buf cert ip)
  case Nil
  then show ?case by simp
next
  case (Cons b bs)
  from Cons.prems obtain r where buf: "0 < length buf" and d: "Decode E buf = (Some b, r)"
    and rest: "blocksOf (Decode E) r bs rest"
    by (auto split: prod.splits option.splits)
  have step: "pemLoop E f buf cert ip =
      (if Type b \<noteq> ''CERTIFICATE'' then pemLoop E f r cert ip
       else (case cert of
               None \<Rightarrow> (case ParseCertificate E (Bytes b) of
                          Inl err \<Rightarrow> Some (Inl (WithStack err))
                        | Inr c \<Rightarrow> pemLoop E f r (Some c) ip)
             | Some c \<Rightarrow> pemLoop E f r cert (ip @ EncodeToMemory E b)))"
    using buf d by (subst pemLoop.simps) simp
  show ?case
    unfolding step using Cons.IH [OF rest]
    by (auto split: option.splits sum.splits)
qed

lemma overBlocks_Some:
  "overBlocks E bs (Some c) ip
     = Inr (Some c, ip @ concat (map (EncodeToMemory E) (filter isCert bs)))"
  by (induction bs arbitrary: ip) (auto simp: isCert_def [abs_def])

lemma overBlocks_None:
  "overBlocks E bs None ip =
     (case filter isCert bs of
        [] \<Rightarrow> Inr (None, ip)
      | b # cs \<Rightarrow>
          (case ParseCertificate E (Bytes b) of
             Inl err \<Rightarrow> Inl err
           | Inr c \<Rightarrow> Inr (Some c, ip @ concat (map (EncodeToMemory E) cs))))"
  by (induction bs) (auto simp: isCert_def [abs_def] overBlocks_Some split: sum.splits)

lemma pemLoop_Some_inv:
  assumes "pemLoop E f buf cert ip = Some r"
  shows "\<exists>bs rest. blocksOf (Decode E) buf bs rest \<and>
       (case overBlocks E bs cert ip of
          Inl err \<Rightarrow> r = Inl (WithStack err)
        | Inr st \<Rightarrow> (rest = [] \<and> r = Inr st)
                     \<or> (undecodable (Decode E) rest \<and> r = Inl (InvalidPEMBlock f)))"
proof (rule pemLoop.raw_induct [where P = "\<lambda>E f buf cert ip r.
     \<exists>bs rest. blocksOf (Decode E) buf bs rest \<and>
       (case overBlocks E bs cert ip of
          Inl err \<Rightarrow> r = Inl (WithStack err)
        | Inr st \<Rightarrow> (rest = [] \<and> r = Inr st)
                     \<or> (undecodable (Decode E) rest \<and> r = Inl (InvalidPEMBlock f)))", OF _ assms], goal_cases)
  case (1 loop E f buf cert ip r)
  show ?case
  proof (cases "0 < length buf")
    case False
    with 1(2) have "r = Inr (cert, ip)" "buf = []" by auto
    then have "blocksOf (Decode E) buf [] [] \<and>
       (case overBlocks E [] cert ip of
          Inl err \<Rightarrow> r = Inl (WithStack err)
        | Inr st \<Rightarrow> ([] = [] \<and> r = Inr st)
                     \<or> (undecodable (Decode E) [] \<and> r = Inl (InvalidPEMBlock f)))" by simp
    then show ?thesis by blast
  next
    case True
    obtain ob r1 where d: "Decode E buf = (ob, r1)" by (cases "Decode E buf")
    show ?thesis
    proof (cases ob)
      case None
      with 1(2) True d have "r = Inl (InvalidPEMBlock f)" by simp
      moreover have "undecodable (Decode E) buf" using True d None by (simp add: undecodable_def)
      ultimately have "blocksOf (Decode E) buf [] buf \<and>
       (case overBlocks E [] cert ip of
          Inl err \<Rightarrow> r = Inl (WithStack err)
        | Inr st \<Rightarrow> (buf = [] \<and> r = Inr st)
                     \<or> (undecodable (Decode E) buf \<and> r = Inl (InvalidPEMBlock f)))" by simp
      then show ?thesis by blast
    next
      case (Some blk)
      have hd: "\<And>bs rest. blocksOf (Decode E) r1 bs rest \<Longrightarrow> blocksOf (Decode E) buf (blk # bs) rest"
        using True d Some by simp
      show ?thesis
      proof (cases "Type blk \<noteq> ''CERTIFICATE''")
        case True
        with 1(2) \<open>0 < length buf\<close> d Some have "loop E f r1 cert ip = Some r" by simp
        from 1(1) [OF this] obtain bs rest where "blocksOf (Decode E) r1 bs rest"
          and "(case overBlocks E bs cert ip of
          Inl err \<Rightarrow> r = Inl (WithStack err)
        | Inr st \<Rightarrow> (rest = [] \<and> r = Inr st)
                     \<or> (undecodable (Decode E) rest \<and> r = Inl (InvalidPEMBlock f)))" by blast
        with True hd show ?thesis
          by (intro exI [of _ "blk # bs"] exI [of _ rest]) simp
      next
        case False
        note isc = False
        show ?thesis
        proof (cases cert)
          case (Some c)
          with 1(2) \<open>0 < length buf\<close> d \<open>ob = Some blk\<close> isc
          have "loop E f r1 cert (ip @ EncodeToMemory E blk) = Some r" by simp
          from 1(1) [OF this] obtain bs rest where "blocksOf (Decode E) r1 bs rest"
            and "(case overBlocks E bs cert (ip @ EncodeToMemory E blk) of
              Inl err \<Rightarrow> r = Inl (WithStack err)
            | Inr st \<Rightarrow> (rest = [] \<and> r = Inr st)
                     \<or> (undecodable (Decode E) rest \<and> r = Inl (InvalidPEMBlock f)))" by blast
          with isc hd Some show ?thesis
            by (intro exI [of _ "blk # bs"] exI [of _ rest]) simp
        next
          case None
          show ?thesis
          proof (cases "ParseCertificate E (Bytes blk)")
            case (Inl err)
            with 1(2) \<open>0 < length buf\<close> d \<open>ob = Some blk\<close> isc None
            have "r = Inl (WithStack err)" by simp
            with isc None Inl hd [of "[]" r1] show ?thesis
              by (intro exI [of _ "[blk]"] exI [of _ r1]) simp
          next
            case (Inr c)
            with 1(2) \<open>0 < length buf\<close> d \<open>ob = Some blk\<close> isc None
            have "loop E f r1 (Some c) ip = Some r" by simp
            from 1(1) [OF this] obtain bs rest where "blocksOf (Decode E) r1 bs rest"
              and "(case overBlocks E bs (Some c) ip of
                Inl err \<Rightarrow> r = Inl (WithStack err)
              | Inr st \<Rightarrow> (rest = [] \<and> r = Inr st)
                     \<or> (undecodable (Decode E) rest \<and> r = Inl (InvalidPEMBlock f)))" by blast
            with isc hd None Inr show ?thesis
              by (intro exI [of _ "blk # bs"] exI [of _ rest]) simp
          qed
        qed
      qed
    qed
  qed
qed

text \<open>
  With a decoder that returns less than it was given whenever it returns a block, as
  \<^verbatim>\<open>pem.Decode\<close> does, the loop ends.
\<close>

lemma pemLoop_terminates:
  assumes shr: "\<And>buf b r. Decode E buf = (Some b, r) \<Longrightarrow> length r < length buf"
  shows "\<exists>res. pemLoop E f buf cert ip = Some res"
proof (induction buf arbitrary: cert ip rule: length_induct)
  case (1 buf)
  show ?case
  proof (cases "0 < length buf")
    case False
    then show ?thesis by (subst pemLoop.simps) simp
  next
    case True
    obtain ob r where d: "Decode E buf = (ob, r)" by (cases "Decode E buf")
    show ?thesis
    proof (cases ob)
      case None
      with True d show ?thesis by (subst pemLoop.simps) simp
    next
      case (Some b)
      with d shr have "length r < length buf" by simp
      with 1 have IH: "\<And>cert ip. \<exists>res. pemLoop E f r cert ip = Some res" by blast
      show ?thesis
        using True d Some IH by (subst pemLoop.simps) (auto split: option.splits sum.splits)
    qed
  qed
qed

lemma fromPEM_results:
  assumes "blocksOf (Decode E) buf bs rest" and "exhausted rest \<or> undecodable (Decode E) rest"
  shows "fromPEM E f buf =
     (case overBlocks E bs None [] of
        Inl err \<Rightarrow> Some (Inl (WithStack err))
      | Inr (cert, ipems) \<Rightarrow>
          if undecodable (Decode E) rest then Some (Inl (InvalidPEMBlock f))
          else (case cert of
                  None \<Rightarrow> Some (Inl (NoPEMCertificateBlocks f))
                | Some c \<Rightarrow>
                    if ipems = [] then Some (Inr (c, {}))
                    else if CertsOfPEM E ipems = [] then Some (Inl (IntermediateListFailure f))
                    else Some (Inr (c, set (CertsOfPEM E ipems)))))"
proof (cases "undecodable (Decode E) rest")
  case True
  then show ?thesis
    unfolding fromPEM_def pemLoop_overBlocks [OF assms(1)]
    by (auto simp: pemLoop_undecodable split: sum.splits)
next
  case False
  with assms(2) have "rest = []" by (simp add: exhausted_def)
  with False show ?thesis
    unfolding fromPEM_def pemLoop_overBlocks [OF assms(1)]
    by (auto simp: pemLoop_empty AppendCertsFromPEM_def NewCertPool_def split: sum.splits option.splits)
qed


lemma overBlocks_Inr_leafParses:
  "overBlocks E bs None ip = Inr st \<Longrightarrow> leafParses E bs"
  by (auto simp: overBlocks_None leafParses_def split: list.splits sum.splits)

lemma leafParses_overBlocks:
  "leafParses E bs \<Longrightarrow> \<exists>st. overBlocks E bs None ip = Inr st"
  by (auto simp: overBlocks_None leafParses_def split: list.splits sum.splits)

lemma overBlocks_filter:
  "overBlocks E (filter isCert bs) cert ip = overBlocks E bs cert ip"
  by (induction bs arbitrary: cert ip) (auto simp: isCert_def split: option.splits sum.splits)

lemma pemLoop_invalid_inv:
  assumes "pemLoop E f buf None ip = Some (Inl (InvalidPEMBlock f))"
  shows "\<exists>bs rest. blocksOf (Decode E) buf bs rest \<and> undecodable (Decode E) rest \<and> leafParses E bs"
  using pemLoop_Some_inv [OF assms]
  apply (elim exE conjE)
  subgoal for bs rest
    by (cases "overBlocks E bs None ip") (auto dest: overBlocks_Inr_leafParses)
  done

lemma pemLoop_nocert_inv:
  assumes "pemLoop E f buf None ip = Some (Inr (None, ip'))"
  shows "\<exists>bs. blocksOf (Decode E) buf bs [] \<and> filter isCert bs = []"
  using pemLoop_Some_inv [OF assms]
  apply (elim exE conjE)
  subgoal for bs rest
    by (cases "overBlocks E bs None ip")
      (auto simp: overBlocks_None split: list.splits sum.splits)
  done

lemma pemLoop_no_other_error:
  assumes "pemLoop E f buf cert ip = Some (Inl e)"
  shows "e = InvalidPEMBlock f \<or> (\<exists>err. e = WithStack err)"
  using pemLoop_Some_inv [OF assms]
  apply (elim exE conjE)
  subgoal for bs rest
    by (cases "overBlocks E bs cert ip") auto
  done

lemma fromPEM_invalid_iff:
  "fromPEM E f buf = Some (Inl (InvalidPEMBlock f)) \<longleftrightarrow>
     (\<exists>bs rest. blocksOf (Decode E) buf bs rest \<and> undecodable (Decode E) rest \<and> leafParses E bs)"
proof
  assume "fromPEM E f buf = Some (Inl (InvalidPEMBlock f))"
  then have "pemLoop E f buf None [] = Some (Inl (InvalidPEMBlock f))"
    by (auto simp: fromPEM_def AppendCertsFromPEM_def split: option.splits sum.splits if_splits)
  then show "\<exists>bs rest. blocksOf (Decode E) buf bs rest \<and> undecodable (Decode E) rest \<and> leafParses E bs"
    by (rule pemLoop_invalid_inv)
next
  assume "\<exists>bs rest. blocksOf (Decode E) buf bs rest \<and> undecodable (Decode E) rest \<and> leafParses E bs"
  then obtain bs rest where b: "blocksOf (Decode E) buf bs rest" and u: "undecodable (Decode E) rest"
    and l: "leafParses E bs" by blast
  from leafParses_overBlocks [OF l, of "[]"] obtain st where "overBlocks E bs None [] = Inr st" by blast
  with fromPEM_results [OF b, of f] u show "fromPEM E f buf = Some (Inl (InvalidPEMBlock f))"
    by (auto split: prod.splits)
qed

lemma fromPEM_nocert_iff:
  "fromPEM E f buf = Some (Inl (NoPEMCertificateBlocks f)) \<longleftrightarrow>
     (\<exists>bs. blocksOf (Decode E) buf bs [] \<and> filter isCert bs = [])"
proof
  assume a: "fromPEM E f buf = Some (Inl (NoPEMCertificateBlocks f))"
  have "\<exists>ip'. pemLoop E f buf None [] = Some (Inr (None, ip'))"
  proof (cases "pemLoop E f buf None []")
    case None
    with a show ?thesis by (simp add: fromPEM_def)
  next
    case (Some r)
    show ?thesis
    proof (cases r)
      case (Inl e)
      with Some pemLoop_no_other_error [of E f buf None "[]" e] a show ?thesis
        by (auto simp: fromPEM_def)
    next
      case (Inr st)
      with Some a show ?thesis
        by (cases st) (auto simp: fromPEM_def AppendCertsFromPEM_def split: option.splits if_splits)
    qed
  qed
  then show "\<exists>bs. blocksOf (Decode E) buf bs [] \<and> filter isCert bs = []"
    by (auto dest: pemLoop_nocert_inv)
next
  assume "\<exists>bs. blocksOf (Decode E) buf bs [] \<and> filter isCert bs = []"
  then obtain bs where b: "blocksOf (Decode E) buf bs []" and n: "filter isCert bs = []" by blast
  from fromPEM_results [OF b, of f] n show "fromPEM E f buf = Some (Inl (NoPEMCertificateBlocks f))"
    by (simp add: overBlocks_None exhausted_def undecodable_def)
qed

lemma fromPEM_skips:
  assumes "blocksOf (Decode E) buf bs rest" and "blocksOf (Decode E) buf' (filter isCert bs) rest"
  shows "fromPEM E f buf' = fromPEM E f buf"
  unfolding fromPEM_def pemLoop_overBlocks [OF assms(1)] pemLoop_overBlocks [OF assms(2)]
    overBlocks_filter ..

section \<open>Decomposing a PEM file\<close>

lemma chain_blocks: "blocksOf (Decode world) chainPEM chainBlocks []"
  by code_simp

lemma chain_certs:
  "filter isCert chainBlocks = toyBlock CHR ''C'' ''leaf'' # [toyBlock CHR ''C'' ''ca'', toyBlock CHR ''C'' ''root'']"
  by code_simp

text \<open>
  C5, as the code has it. Let the buffer be read to its end as the blocks \<open>bs\<close>, let
  \<open>b\<close> be the first certificate-typed block and \<open>cs\<close> the certificate-typed blocks
  after it, whatever other blocks stand between them. Let every one of these blocks
  parse: \<open>b\<close> as the certificate \<open>c\<close> and the blocks \<open>cs\<close>, in their order, as the
  certificates \<open>certs\<close>. Let the pool's reader give back from the re-encoding of the
  blocks \<open>cs\<close> their certificates, and nothing from an empty buffer. Then the leaf is
  \<open>c\<close> and the intermediate pool holds exactly the certificates \<open>certs\<close> of the
  \<open>N - 1\<close> later blocks; with no block after \<open>b\<close> the pool is empty.
\<close>

theorem fromPEM_leaf_and_intermediates:
  assumes "blocksOf (Decode E) buf bs []"
    and "filter isCert bs = b # cs"
    and "ParseCertificate E (Bytes b) = Inr c"
    and "map (\<lambda>blk. ParseCertificate E (Bytes blk)) cs = map Inr certs"
    and "CertsOfPEM E (concat (map (EncodeToMemory E) cs)) = certs"
    and "CertsOfPEM E [] = []"
  shows "fromPEM E f buf = Some (Inr (c, set certs))
         \<and> length certs = length (filter isCert bs) - 1
         \<and> (length (filter isCert bs) = 1 \<longrightarrow> fromPEM E f buf = Some (Inr (c, {})))"
proof -
  from assms(4) have len: "length certs = length cs"
    by (metis length_map)
  have res: "fromPEM E f buf = Some (Inr (c, set certs))"
  proof (cases "concat (map (EncodeToMemory E) cs) = []")
    case True
    with assms(5,6) have "certs = []" by simp
    with fromPEM_results [OF assms(1), of f] assms(2,3) True show ?thesis
      by (simp add: overBlocks_None exhausted_def undecodable_def)
  next
    case False
    with len have "cs \<noteq> []" by auto
    with len have "certs \<noteq> []" by auto
    with fromPEM_results [OF assms(1), of f] assms(2,3,5) False show ?thesis
      by (simp add: overBlocks_None exhausted_def undecodable_def)
  qed
  moreover have "length (filter isCert bs) = 1 \<longrightarrow> certs = []"
    using len assms(2) by auto
  ultimately show ?thesis using len assms(2) by auto
qed

text \<open>
  A file with a key, the leaf, a key, an intermediate and a root: the leaf is the first
  certificate and the pool holds the other two.
\<close>

theorem fromPEM_leaf_and_intermediates_witness:
  "blocksOf (Decode world) chainPEM chainBlocks []
   \<and> filter isCert chainBlocks
       = toyBlock CHR ''C'' ''leaf'' # [toyBlock CHR ''C'' ''ca'', toyBlock CHR ''C'' ''root'']
   \<and> ParseCertificate world (Bytes (toyBlock CHR ''C'' ''leaf'')) = Inr (toyCert ''leaf'')
   \<and> map (\<lambda>blk. ParseCertificate world (Bytes blk))
         [toyBlock CHR ''C'' ''ca'', toyBlock CHR ''C'' ''root'']
       = map Inr [toyCert ''ca'', toyCert ''root'']
   \<and> CertsOfPEM world
         (concat (map (EncodeToMemory world) [toyBlock CHR ''C'' ''ca'', toyBlock CHR ''C'' ''root'']))
       = [toyCert ''ca'', toyCert ''root'']
   \<and> CertsOfPEM world [] = []
   \<and> fromPEM world ''chain.pem'' chainPEM
       = Some (Inr (toyCert ''leaf'', {toyCert ''ca'', toyCert ''root''}))
   \<and> length [toyCert ''ca'', toyCert ''root''] = length (filter isCert chainBlocks) - 1"
proof -
  have p: "ParseCertificate world (Bytes (toyBlock CHR ''C'' ''leaf'')) = Inr (toyCert ''leaf'')"
    by code_simp
  have q: "map (\<lambda>blk. ParseCertificate world (Bytes blk))
         [toyBlock CHR ''C'' ''ca'', toyBlock CHR ''C'' ''root'']
       = map Inr [toyCert ''ca'', toyCert ''root'']"
    by code_simp
  have r: "CertsOfPEM world
         (concat (map (EncodeToMemory world) [toyBlock CHR ''C'' ''ca'', toyBlock CHR ''C'' ''root'']))
       = [toyCert ''ca'', toyCert ''root'']"
    by code_simp
  have e: "CertsOfPEM world [] = []"
    by code_simp
  have s: "set [toyCert ''ca'', toyCert ''root''] = {toyCert ''ca'', toyCert ''root''}"
    by simp
  from fromPEM_leaf_and_intermediates [OF chain_blocks chain_certs p q r e, of "''chain.pem''"]
  show ?thesis
    unfolding s by (simp only: chain_blocks chain_certs p q r e simp_thms)
qed

text \<open>
  C5, as the specification has it (every buffer with \<open>N \<ge> 1\<close> certificate-typed blocks
  yields a leaf and a pool of the \<open>N - 1\<close> later ones), fails where a certificate-typed
  block does not parse. If it is the first one, the action returns the parser's error;
  if it is the only later one, the action returns the error of the intermediate list.
\<close>

theorem certificate_block_may_not_parse:
  "blocksOf (Decode world) ''Kkey;Cxyz;'' [toyBlock CHR ''K'' ''key'', toyBlock CHR ''C'' ''xyz''] []
   \<and> length (filter isCert [toyBlock CHR ''K'' ''key'', toyBlock CHR ''C'' ''xyz'']) = 1
   \<and> verifyAction world (invoke ''garbled.pem'' [] False [])
       = Some ([], Some (WithStack ''asn1: syntax error''))
   \<and> blocksOf (Decode world) ''Cleaf;Cxyz;'' [toyBlock CHR ''C'' ''leaf'', toyBlock CHR ''C'' ''xyz''] []
   \<and> length (filter isCert [toyBlock CHR ''C'' ''leaf'', toyBlock CHR ''C'' ''xyz'']) = 2
   \<and> verifyAction world (invoke ''badrest.pem'' [] False [])
       = Some ([], Some (IntermediateListFailure ''badrest.pem''))"
  by code_simp

text \<open>
  C6, as the code has it. The decomposer fails with the invalid-PEM-block error
  (MalformedInput) exactly when the loop arrives at a remainder that is not empty and
  holds no decodable block, that is, when such a remainder follows blocks whose first
  certificate-typed block, if there is one, parses. It fails with the
  no-certificate-blocks error (NoCertificateFound) exactly when the buffer is read to
  its end and none of its blocks is certificate-typed. Blocks of another type are
  skipped and are never an error: a buffer and a buffer that holds only its
  certificate-typed blocks, with the same remainder, give the same result.
\<close>

theorem fromPEM_failures:
  "(fromPEM E f buf = Some (Inl (InvalidPEMBlock f)) \<longleftrightarrow>
      (\<exists>bs rest. blocksOf (Decode E) buf bs rest \<and> undecodable (Decode E) rest \<and> leafParses E bs))
   \<and> (fromPEM E f buf = Some (Inl (NoPEMCertificateBlocks f)) \<longleftrightarrow>
      (\<exists>bs. blocksOf (Decode E) buf bs [] \<and> filter isCert bs = []))
   \<and> (blocksOf (Decode E) buf bs rest \<and> blocksOf (Decode E) buf' (filter isCert bs) rest
        \<longrightarrow> fromPEM E f buf' = fromPEM E f buf)"
  using fromPEM_invalid_iff [of E f buf] fromPEM_nocert_iff [of E f buf]
    fromPEM_skips [of E buf bs rest buf' f]
  by blast

theorem fromPEM_failures_witness:
  "blocksOf (Decode world) chainPEM chainBlocks []
   \<and> blocksOf (Decode world) ''Cleaf;Cca;Croot;'' (filter isCert chainBlocks) []
   \<and> fromPEM world ''chain.pem'' ''Cleaf;Cca;Croot;'' = fromPEM world ''chain.pem'' chainPEM"
proof -
  have b: "blocksOf (Decode world) ''Cleaf;Cca;Croot;'' (filter isCert chainBlocks) []"
    by code_simp
  from fromPEM_failures [of world "''chain.pem''" chainPEM chainBlocks "[]" "''Cleaf;Cca;Croot;''"]
    chain_blocks b
  show ?thesis by blast
qed

text \<open>
  C6, as the specification has it (MalformedInput whenever some block cannot be decoded
  before the buffer is exhausted), fails when the first certificate-typed block does not
  parse: the parser's error is returned before the undecodable remainder is reached.
\<close>

theorem parse_error_before_undecodable_rest:
  "blocksOf (Decode world) ''Cxyz;junk'' [toyBlock CHR ''C'' ''xyz''] ''junk''
   \<and> undecodable (Decode world) ''junk''
   \<and> fromPEM world ''badleaf.pem'' ''Cxyz;junk'' = Some (Inl (WithStack ''asn1: syntax error''))
   \<and> verifyAction world (invoke ''badleaf.pem'' [] False [])
       = Some ([], Some (WithStack ''asn1: syntax error''))"
  by code_simp

section \<open>The chain a server presents\<close>

lemma foldl_AddCert: "foldl AddCert s cs = s \<union> set cs"
  by (induction cs arbitrary: s) (auto simp: AddCert_def)

text \<open>
  For a URL source whose fetch returns a chain that is not empty, the first presented
  certificate is the leaf and the pool holds every presented certificate.
\<close>

lemma peer_chain_all_in_pool:
  assumes "trimURL E (Args_Get (Args ctx) 0) = Inr (addr, True)"
    and "getPeerCertificates E addr (flag_servername ctx) (flag_roots ctx) False = Inr (c # cs)"
  shows "acquire E ctx = Some (Inr (c, insert c (set cs)))"
  using assms by (simp add: acquire_def fromPeer_def foldl_AddCert NewCertPool_def AddCert_def)

text \<open>
  C4 does not hold of the code. A server presents the leaf and its issuer. The leaf is
  the first certificate, but the intermediate pool holds the leaf and the issuer, not
  the issuer alone. The same two certificates read from a file give the pool of the
  issuer alone, as the comment in the file branch says.
\<close>

theorem url_source_puts_leaf_in_pool:
  "getPeerCertificates world ''ca.example'' [] [] False = Inr [toyCert ''leaf'', toyCert ''ca'']
   \<and> acquire world (invoke ''https://ca.example'' [] False [])
       = Some (Inr (toyCert ''leaf'', {toyCert ''leaf'', toyCert ''ca''}))
   \<and> toyCert ''leaf'' \<in> {toyCert ''leaf'', toyCert ''ca''}
   \<and> {toyCert ''leaf'', toyCert ''ca''} \<noteq> {toyCert ''ca''}
   \<and> acquire world (invoke ''served.pem'' [] False [])
       = Some (Inr (toyCert ''leaf'', {toyCert ''ca''}))"
  by code_simp

section \<open>Verdancy mode and what it depends on\<close>













section \<open>A root source that cannot be loaded\<close>

text \<open>
  A file source whose root pool cannot be loaded is treated like a run without a root
  source.
\<close>

lemma root_failure_as_no_roots:
  assumes "trimURL E (Args_Get (Args ctx) 0) = Inr (addr, False)"
    and "fst (ReadCertPool E (flag_roots ctx)) = None"
  shows "verifyAction E ctx = verifyAction E (ctx\<lparr>flag_roots := []\<rparr>)"
proof -
  have a: "acquire E (ctx\<lparr>flag_roots := []\<rparr>) = acquire E ctx"
    using assms(1) by (simp add: acquire_def)
  have l: "loadRoots E (flag_roots ctx) = None" "loadRoots E [] = None"
    using assms(2) by (simp_all add: loadRoots_def)
  show ?thesis
    unfolding verifyAction_def a by (simp add: l split: option.splits sum.splits prod.splits)
qed

text \<open>
  C1 does not hold of the code. With \<^verbatim>\<open>--roots missing.pem\<close>, a file that cannot be
  read, \<^verbatim>\<open>ReadCertPool\<close> fails, and the action still validates the leaf (against the
  default roots, as without \<^verbatim>\<open>--roots\<close>) and succeeds; in verdancy mode it writes
  the level and succeeds.
\<close>

theorem root_load_error_is_dropped:
  "ReadCertPool world ''missing.pem'' = (None, Some ''no such file or directory'')
   \<and> verifyAction world (invoke ''leaf.pem'' [] False ''missing.pem'') = Some ([], None)
   \<and> verifyAction world (invoke ''leaf.pem'' [] False ''missing.pem'')
       = verifyAction world (invoke ''leaf.pem'' [] False [])
   \<and> verifyAction world (invoke ''leaf.pem'' [] True ''missing.pem'') = Some ([(Green, 0)], None)"
  by code_simp

end
